theory Spec2Isabelle
  imports Main "HOL-Library.Sublist"
begin

section \<open>Python strings and \<open>json.dumps\<close>\<close>

text \<open>
  A Python \<open>str\<close> is modelled as a \<open>string\<close>; a \<open>char\<close> stands for the code point of the
  same number, so the model covers the code points 0 to 255.

  \<open>str.join\<close>: the separator is put between consecutive elements only.
\<close>

fun join :: "string \<Rightarrow> string list \<Rightarrow> string" where
  "join sep [] = []"
| "join sep [x] = x"
| "join sep (x # y # ys) = x @ sep @ join sep (y # ys)"

text \<open>
  \<open>json.dumps\<close> with its default arguments (\<open>ensure_ascii=True\<close>, separators \<open>", "\<close> and
  \<open>": "\<close>). A string is quoted; the quote, the backslash and the control characters with
  a short form get that form, every other character outside \<open>' '..'~'\<close> is written
  \<open>\uXXXX\<close> with lower-case hexadecimal digits.
\<close>

definition hex_digit :: "nat \<Rightarrow> char" where
  "hex_digit n = ''0123456789abcdef'' ! (n mod 16)"

definition escape_char :: "char \<Rightarrow> string" where
  "escape_char c =
     (if c = CHR 0x22 then [CHR 0x5C, CHR 0x22]
      else if c = CHR 0x5C then [CHR 0x5C, CHR 0x5C]
      else if c = CHR 0x0A then [CHR 0x5C, CHR ''n'']
      else if c = CHR 0x0D then [CHR 0x5C, CHR ''r'']
      else if c = CHR 0x09 then [CHR 0x5C, CHR ''t'']
      else if c = CHR 0x08 then [CHR 0x5C, CHR ''b'']
      else if c = CHR 0x0C then [CHR 0x5C, CHR ''f'']
      else if 0x20 \<le> (of_char c :: nat) \<and> (of_char c :: nat) \<le> 0x7E then [c]
      else [CHR 0x5C, CHR ''u'', CHR ''0'', CHR ''0'',
            hex_digit ((of_char c :: nat) div 16), hex_digit (of_char c :: nat)])"

definition encode_basestring_ascii :: "string \<Rightarrow> string" where
  "encode_basestring_ascii s = [CHR 0x22] @ concat (map escape_char s) @ [CHR 0x22]"

datatype json =
    JNull
  | JBool bool
  | JStr string
  | JList "json list"
  | JDict "(string \<times> json) list"

fun dumps :: "json \<Rightarrow> string" where
  "dumps JNull = ''null''"
| "dumps (JBool b) = (if b then ''true'' else ''false'')"
| "dumps (JStr s) = encode_basestring_ascii s"
| "dumps (JList xs) = ''['' @ join '', '' (map dumps xs) @ '']''"
| "dumps (JDict kvs) =
     ''{'' @ join '', '' (map (\<lambda>kv. encode_basestring_ascii (fst kv) @ '': '' @ dumps (snd kv)) kvs)
       @ ''}''"

text \<open>The Python values that occur in the option bundle: \<open>None\<close> is \<open>null\<close>.\<close>

definition json_of_opt_str :: "string option \<Rightarrow> json" where
  "json_of_opt_str v = (case v of None \<Rightarrow> JNull | Some s \<Rightarrow> JStr s)"

definition json_of_opt_bool :: "bool option \<Rightarrow> json" where
  "json_of_opt_bool v = (case v of None \<Rightarrow> JNull | Some b \<Rightarrow> JBool b)"


section \<open>The configuration\<close>

text \<open>
  The dataclass \<open>StealthConfig\<close>. \<open>nav_user_agent\<close>, \<open>nav_platform\<close> and
  \<open>runOnInsecureOrigins\<close> default to \<open>None\<close> and are options.
\<close>

record StealthConfig =
  webdriver :: bool
  webgl_vendor :: bool
  chrome_app :: bool
  chrome_csi :: bool
  chrome_load_times :: bool
  chrome_runtime :: bool
  iframe_content_window :: bool
  media_codecs :: bool
  navigator_hardware_concurrency :: int
  navigator_languages :: bool
  navigator_permissions :: bool
  navigator_plugins :: bool
  navigator_user_agent :: bool
  navigator_vendor :: bool
  outerdimensions :: bool
  vendor :: string
  renderer :: string
  nav_vendor :: string
  nav_user_agent :: "string option"
  nav_platform :: "string option"
  languages :: "string list"
  runOnInsecureOrigins :: "bool option"

text \<open>\<open>StealthConfig()\<close>: every field at its default.\<close>

definition default_config :: StealthConfig where
  \<open>default_config =
     \<lparr> webdriver = True,
       webgl_vendor = True,
       chrome_app = True,
       chrome_csi = True,
       chrome_load_times = True,
       chrome_runtime = True,
       iframe_content_window = True,
       media_codecs = True,
       navigator_hardware_concurrency = 4,
       navigator_languages = True,
       navigator_permissions = True,
       navigator_plugins = True,
       navigator_user_agent = True,
       navigator_vendor = True,
       outerdimensions = True,
       vendor = ''Intel Inc.'',
       renderer = ''Intel Iris OpenGL Engine'',
       nav_vendor = ''Google Inc.'',
       nav_user_agent = None,
       nav_platform = None,
       languages = [''en-US'', ''en''],
       runOnInsecureOrigins = None \<rparr>\<close>


section \<open>The fragment sequence\<close>

text \<open>
  \<open>SCRIPTS\<close> is the module's dictionary from patch name to the text of its file. The
  texts are data of the package, read when the module is loaded, so the dictionary is a
  parameter: \<open>SCRIPTS name\<close> is \<open>SCRIPTS[name]\<close>. Every name looked up below is a key of
  the dictionary literal.

  The generator \<open>enabled_scripts\<close> is the list of what it yields, in order: each
  statement of its body contributes the fragments it yields.
\<close>

definition opts_dict :: "StealthConfig \<Rightarrow> json" where
  \<open>opts_dict self =
     JDict [(''webgl_vendor'', JStr (vendor self)),
            (''webgl_renderer'', JStr (renderer self)),
            (''navigator_vendor'', JStr (nav_vendor self)),
            (''navigator_platform'', json_of_opt_str (nav_platform self)),
            (''navigator_user_agent'', json_of_opt_str (nav_user_agent self)),
            (''languages'', JList (map JStr (languages self))),
            (''runOnInsecureOrigins'', json_of_opt_bool (runOnInsecureOrigins self))]\<close>

definition enabled_scripts :: "(string \<Rightarrow> string) \<Rightarrow> StealthConfig \<Rightarrow> string list" where
  \<open>enabled_scripts SCRIPTS self =
     [''const opts = '' @ dumps (opts_dict self)]
     @ [SCRIPTS ''utils'']
     @ [SCRIPTS ''generate_magic_arrays'']
     @ (if chrome_app self then [SCRIPTS ''chrome_app''] else [])
     @ (if chrome_csi self then [SCRIPTS ''chrome_csi''] else [])
     @ (if chrome_load_times self then [SCRIPTS ''chrome_load_times''] else [])
     @ (if chrome_runtime self then [SCRIPTS ''chrome_runtime''] else [])
     @ (if iframe_content_window self then [SCRIPTS ''iframe_content_window''] else [])
     @ (if media_codecs self then [SCRIPTS ''media_codecs''] else [])
     @ (if navigator_languages self then [SCRIPTS ''navigator_languages''] else [])
     @ (if navigator_permissions self then [SCRIPTS ''navigator_permissions''] else [])
     @ (if navigator_plugins self then [SCRIPTS ''navigator_plugins''] else [])
     @ (if navigator_user_agent self then [SCRIPTS ''navigator_user_agent''] else [])
     @ (if navigator_vendor self then [SCRIPTS ''navigator_vendor''] else [])
     @ (if webdriver self then [SCRIPTS ''webdriver''] else [])
     @ (if outerdimensions self then [SCRIPTS ''outerdimensions''] else [])
     @ (if webgl_vendor self then [SCRIPTS ''webgl_vendor''] else [])\<close>


text \<open>
  The optional patches as a table, for stating what one toggle does: the field that
  guards a patch, the configuration with that field set to \<open>False\<close>, and the key under
  which the patch is looked up in \<open>SCRIPTS\<close>.
\<close>

datatype toggle =
    Chrome_app | Chrome_csi | Chrome_load_times | Chrome_runtime | Iframe_content_window
  | Media_codecs | Navigator_languages | Navigator_permissions | Navigator_plugins
  | Navigator_user_agent | Navigator_vendor | Webdriver | Outerdimensions | Webgl_vendor

fun toggle_on :: "toggle \<Rightarrow> StealthConfig \<Rightarrow> bool" where
  "toggle_on Chrome_app c = chrome_app c"
| "toggle_on Chrome_csi c = chrome_csi c"
| "toggle_on Chrome_load_times c = chrome_load_times c"
| "toggle_on Chrome_runtime c = chrome_runtime c"
| "toggle_on Iframe_content_window c = iframe_content_window c"
| "toggle_on Media_codecs c = media_codecs c"
| "toggle_on Navigator_languages c = navigator_languages c"
| "toggle_on Navigator_permissions c = navigator_permissions c"
| "toggle_on Navigator_plugins c = navigator_plugins c"
| "toggle_on Navigator_user_agent c = navigator_user_agent c"
| "toggle_on Navigator_vendor c = navigator_vendor c"
| "toggle_on Webdriver c = webdriver c"
| "toggle_on Outerdimensions c = outerdimensions c"
| "toggle_on Webgl_vendor c = webgl_vendor c"

fun disable :: "toggle \<Rightarrow> StealthConfig \<Rightarrow> StealthConfig" where
  "disable Chrome_app c = c\<lparr>chrome_app := False\<rparr>"
| "disable Chrome_csi c = c\<lparr>chrome_csi := False\<rparr>"
| "disable Chrome_load_times c = c\<lparr>chrome_load_times := False\<rparr>"
| "disable Chrome_runtime c = c\<lparr>chrome_runtime := False\<rparr>"
| "disable Iframe_content_window c = c\<lparr>iframe_content_window := False\<rparr>"
| "disable Media_codecs c = c\<lparr>media_codecs := False\<rparr>"
| "disable Navigator_languages c = c\<lparr>navigator_languages := False\<rparr>"
| "disable Navigator_permissions c = c\<lparr>navigator_permissions := False\<rparr>"
| "disable Navigator_plugins c = c\<lparr>navigator_plugins := False\<rparr>"
| "disable Navigator_user_agent c = c\<lparr>navigator_user_agent := False\<rparr>"
| "disable Navigator_vendor c = c\<lparr>navigator_vendor := False\<rparr>"
| "disable Webdriver c = c\<lparr>webdriver := False\<rparr>"
| "disable Outerdimensions c = c\<lparr>outerdimensions := False\<rparr>"
| "disable Webgl_vendor c = c\<lparr>webgl_vendor := False\<rparr>"

fun patch_name :: "toggle \<Rightarrow> string" where
  "patch_name Chrome_app = ''chrome_app''"
| "patch_name Chrome_csi = ''chrome_csi''"
| "patch_name Chrome_load_times = ''chrome_load_times''"
| "patch_name Chrome_runtime = ''chrome_runtime''"
| "patch_name Iframe_content_window = ''iframe_content_window''"
| "patch_name Media_codecs = ''media_codecs''"
| "patch_name Navigator_languages = ''navigator_languages''"
| "patch_name Navigator_permissions = ''navigator_permissions''"
| "patch_name Navigator_plugins = ''navigator_plugins''"
| "patch_name Navigator_user_agent = ''navigator_user_agent''"
| "patch_name Navigator_vendor = ''navigator_vendor''"
| "patch_name Webdriver = ''webdriver''"
| "patch_name Outerdimensions = ''outerdimensions''"
| "patch_name Webgl_vendor = ''webgl_vendor''"


section \<open>Loading the patch texts\<close>

text \<open>
  \<open>from_file\<close> reads one file of the \<open>js\<close> directory beside the module. The directory is
  a partial map from file name to text; a name it does not map is a file that is missing
  or cannot be read or decoded, and \<open>open\<close> or \<open>read\<close> raises.
\<close>

datatype error = ReadError string

type_synonym js_dir = "string \<rightharpoonup> string"

definition from_file :: "js_dir \<Rightarrow> string \<Rightarrow> error + string" where
  "from_file js name = (case js name of None \<Rightarrow> Inl (ReadError name) | Some text \<Rightarrow> Inr text)"

text \<open>
  The dictionary literal bound to \<open>SCRIPTS\<close>: its entries are evaluated from first to
  last, and the first \<open>from_file\<close> that raises ends the evaluation, so that no dictionary
  is built. A dictionary is an association list in insertion order.
\<close>

fun dict_of_files :: "js_dir \<Rightarrow> (string \<times> string) list \<Rightarrow> error + (string \<times> string) list" where
  "dict_of_files js [] = Inr []"
| "dict_of_files js ((key, name) # rest) =
     (case from_file js name of
        Inl e \<Rightarrow> Inl e
      | Inr text \<Rightarrow>
          (case dict_of_files js rest of
             Inl e \<Rightarrow> Inl e
           | Inr d \<Rightarrow> Inr ((key, text) # d)))"

definition SCRIPTS_files :: "(string \<times> string) list" where
  "SCRIPTS_files =
     [(''chrome_csi'', ''chrome.csi.js''),
      (''chrome_app'', ''chrome.app.js''),
      (''chrome_runtime'', ''chrome.runtime.js''),
      (''chrome_load_times'', ''chrome.load.times.js''),
      (''generate_magic_arrays'', ''generate.magic.arrays.js''),
      (''iframe_content_window'', ''iframe.contentWindow.js''),
      (''media_codecs'', ''media.codecs.js''),
      (''navigator_vendor'', ''navigator.vendor.js''),
      (''navigator_plugins'', ''navigator.plugins.js''),
      (''navigator_permissions'', ''navigator.permissions.js''),
      (''navigator_languages'', ''navigator.languages.js''),
      (''navigator_user_agent'', ''navigator.userAgent.js''),
      (''navigator_hardware_concurrency'', ''navigator.hardwareConcurrency.js''),
      (''outerdimensions'', ''window.outerdimensions.js''),
      (''utils'', ''utils.js''),
      (''webdriver'', ''navigator.webdriver.js''),
      (''webgl_vendor'', ''webgl.vendor.js'')]"

definition load_SCRIPTS :: "js_dir \<Rightarrow> error + (string \<times> string) list" where
  "load_SCRIPTS js = dict_of_files js SCRIPTS_files"


section \<open>The page and the header overlay\<close>

text \<open>
  The page belongs to the browser driver. Of a page the model keeps what the two driver
  calls of the module register on it: the init scripts, in the order of registration
  (\<open>page.add_init_script\<close> adds one), and the routes (\<open>page.route\<close> adds a URL pattern with its
  handler). A handler receives the request and resolves the route; the only resolution
  used here is \<open>route.continue_(headers=...)\<close>.
\<close>

type_synonym headers = "string \<rightharpoonup> string"

datatype resolution = Continue headers

record page =
  init_scripts :: "string list"
  routes :: "(string \<times> (headers \<Rightarrow> resolution)) list"

definition add_init_script :: "page \<Rightarrow> string \<Rightarrow> page" where
  "add_init_script p script = p\<lparr>init_scripts := init_scripts p @ [script]\<rparr>"

definition route :: "page \<Rightarrow> string \<Rightarrow> (headers \<Rightarrow> resolution) \<Rightarrow> page" where
  "route p url handler = p\<lparr>routes := routes p @ [(url, handler)]\<rparr>"

text \<open>
  The dictionary display \<open>{**request.headers, "sec-ch-ua": ..., ...}\<close>: the request's
  headers, then each listed key set to its constant, from first to last.
\<close>

definition stealth_headers :: "headers \<Rightarrow> headers" where
  \<open>stealth_headers request_headers =
     request_headers
      (''sec-ch-ua'' \<mapsto> ''"Chromium";v="129", "Not=A?Brand";v="8"'',
       ''sec-ch-ua-mobile'' \<mapsto> ''?0'',
       ''sec-ch-ua-platform'' \<mapsto> ''"macOS"'',
       ''sec-ch-ua-form-factors'' \<mapsto> ''desktop'',
       ''upgrade-insecure-requests'' \<mapsto> ''1'',
       ''dnt'' \<mapsto> ''1'',
       ''user-agent'' \<mapsto> ''Mozilla/5.0 (Macintosh; Intel Mac OS X 10_15_7) AppleWebKit/537.36 (KHTML, like Gecko) Chrome/129.0.0.0 Safari/537.36'',
       ''accept'' \<mapsto> CHR 0x09 # ''text/html,application/xhtml+xml,application/xml;q=0.9,image/avif,image/webp,image/apng,*/*;q=0.8,application/signed-exchange;v=b3;q=0.7'',
       ''sec-fetch-site'' \<mapsto> ''cross-site'',
       ''sec-fetch-mode'' \<mapsto> ''navigate'',
       ''sec-fetch-user'' \<mapsto> ''?1'',
       ''sec-fetch-dest'' \<mapsto> ''document'',
       ''referer'' \<mapsto> ''https://www.google.com/'',
       ''accept-encoding'' \<mapsto> ''gzip, deflate, br, zstd'',
       ''accept-language'' \<mapsto> ''en-US,en;q=0.9'')\<close>

text \<open>
  The handler \<open>lambda route, request: route.continue_(headers={...})\<close>, as a function of
  the headers of the request, and the mapping that a resolution forwards.
\<close>

definition stealth_handler :: "headers \<Rightarrow> resolution" where
  "stealth_handler request_headers = Continue (stealth_headers request_headers)"

fun forwarded :: "resolution \<Rightarrow> headers" where
  "forwarded (Continue hs) = hs"


section \<open>Coroutines and the apply operations\<close>

text \<open>
  Calling a function declared \<open>async def\<close> runs none of its body: the call returns a
  coroutine object, and the body runs when that object is awaited. A coroutine is its
  suspended body, a transformation of the page; \<open>call_async\<close> is the call (the page is
  left as it is) and \<open>await\<close> runs the body.
\<close>

datatype coroutine = Coroutine "page \<Rightarrow> page"

definition call_async :: "(page \<Rightarrow> page) \<Rightarrow> page \<Rightarrow> coroutine \<times> page" where
  "call_async body p = (Coroutine body, p)"

fun await :: "coroutine \<Rightarrow> page \<Rightarrow> page" where
  "await (Coroutine body) p = body p"

text \<open>
  The driver has two page classes. On a page of the synchronous API \<open>page.route(...)\<close>
  registers the route when it is called. On a page of the asynchronous API \<open>page.route\<close>
  is a coroutine function: the call gives a coroutine, and the route is registered when
  that coroutine is awaited.
\<close>

datatype api = Sync_api | Async_api

fun page_route :: "api \<Rightarrow> page \<Rightarrow> string \<Rightarrow> (headers \<Rightarrow> resolution) \<Rightarrow> coroutine option \<times> page" where
  "page_route Sync_api p url handler = (None, route p url handler)"
| "page_route Async_api p url handler =
     (Some (fst (call_async (\<lambda>q. route q url handler) p)),
      snd (call_async (\<lambda>q. route q url handler) p))"

text \<open>
  The body of \<open>add_stealth_headers\<close>, for a page of either class: its one statement is the
  call \<open>page.route("**/*", ...)\<close>, whose result is dropped. The function itself is
  \<open>async def\<close>.
\<close>

definition add_stealth_headers_body :: "api \<Rightarrow> page \<Rightarrow> page" where
  "add_stealth_headers_body kind p = snd (page_route kind p ''**/*'' stealth_handler)"

definition add_stealth_headers :: "api \<Rightarrow> page \<Rightarrow> coroutine \<times> page" where
  "add_stealth_headers kind p = call_async (add_stealth_headers_body kind) p"

text \<open>\<open>config or StealthConfig()\<close>: a dataclass instance is true, \<open>None\<close> is not.\<close>

definition config_or_default :: "StealthConfig option \<Rightarrow> StealthConfig" where
  "config_or_default config = (case config of None \<Rightarrow> default_config | Some c \<Rightarrow> c)"

text \<open>The loop \<open>for script in ...: scripts.append(script)\<close>, from \<open>scripts = []\<close>.\<close>

definition collect_scripts :: "string list \<Rightarrow> string list" where
  "collect_scripts gen = foldl (\<lambda>scripts script. scripts @ [script]) [] gen"

text \<open>
  \<open>stealth_sync\<close>, on a page of the synchronous API. The statement
  \<open>add_stealth_headers(page)\<close> is a call of an \<open>async def\<close> function whose result is dropped.
\<close>

definition stealth_sync :: "(string \<Rightarrow> string) \<Rightarrow> page \<Rightarrow> StealthConfig option \<Rightarrow> page" where
  \<open>stealth_sync SCRIPTS page0 config =
     (let scripts = collect_scripts (enabled_scripts SCRIPTS (config_or_default config));
          page1 = snd (add_stealth_headers Sync_api page0);
          combined_script = join ''\<newline>'' scripts
      in add_init_script page1 combined_script)\<close>

text \<open>
  \<open>stealth_async\<close>, on a page of the asynchronous API, is \<open>async def\<close> itself: the call
  gives a coroutine, whose body is below. In the body \<open>add_stealth_headers(page)\<close> is again called and dropped, and
  \<open>page.add_init_script\<close> is awaited.
\<close>

definition stealth_async_body :: "(string \<Rightarrow> string) \<Rightarrow> StealthConfig option \<Rightarrow> page \<Rightarrow> page" where
  \<open>stealth_async_body SCRIPTS config page0 =
     (let scripts = collect_scripts (enabled_scripts SCRIPTS (config_or_default config));
          page1 = snd (add_stealth_headers Async_api page0);
          combined_script = join ''\<newline>'' scripts @ ''\<newline>console.log(`end`);''
      in add_init_script page1 combined_script)\<close>

definition stealth_async :: "(string \<Rightarrow> string) \<Rightarrow> page \<Rightarrow> StealthConfig option \<Rightarrow> coroutine \<times> page" where
  "stealth_async SCRIPTS page0 config = call_async (stealth_async_body SCRIPTS config) page0"

text \<open>The statement that the asynchronous variant appends after a newline.\<close>

definition end_marker :: string where
  \<open>end_marker = ''console.log(`end`);''\<close>

text \<open>Exchanging the fragments at two positions of a sequence.\<close>

definition swap :: "nat \<Rightarrow> nat \<Rightarrow> 'a list \<Rightarrow> 'a list" where
  "swap i j xs = xs[i := xs ! j, j := xs ! i]"



section \<open>Auxiliary definitions\<close>

text \<open>The body of the generator, statement by statement: what each statement yields.\<close>

definition segments :: "(string \<Rightarrow> string) \<Rightarrow> StealthConfig \<Rightarrow> string list list" where
  \<open>segments SCRIPTS self =
     [[''const opts = '' @ dumps (opts_dict self)],
      [SCRIPTS ''utils''],
      [SCRIPTS ''generate_magic_arrays''],
      if chrome_app self then [SCRIPTS ''chrome_app''] else [],
      if chrome_csi self then [SCRIPTS ''chrome_csi''] else [],
      if chrome_load_times self then [SCRIPTS ''chrome_load_times''] else [],
      if chrome_runtime self then [SCRIPTS ''chrome_runtime''] else [],
      if iframe_content_window self then [SCRIPTS ''iframe_content_window''] else [],
      if media_codecs self then [SCRIPTS ''media_codecs''] else [],
      if navigator_languages self then [SCRIPTS ''navigator_languages''] else [],
      if navigator_permissions self then [SCRIPTS ''navigator_permissions''] else [],
      if navigator_plugins self then [SCRIPTS ''navigator_plugins''] else [],
      if navigator_user_agent self then [SCRIPTS ''navigator_user_agent''] else [],
      if navigator_vendor self then [SCRIPTS ''navigator_vendor''] else [],
      if webdriver self then [SCRIPTS ''webdriver''] else [],
      if outerdimensions self then [SCRIPTS ''outerdimensions''] else [],
      if webgl_vendor self then [SCRIPTS ''webgl_vendor''] else []]\<close>

text \<open>The index of the statement that a toggle guards.\<close>

fun position :: "toggle \<Rightarrow> nat" where
  "position Chrome_app = 3"
| "position Chrome_csi = 4"
| "position Chrome_load_times = 5"
| "position Chrome_runtime = 6"
| "position Iframe_content_window = 7"
| "position Media_codecs = 8"
| "position Navigator_languages = 9"
| "position Navigator_permissions = 10"
| "position Navigator_plugins = 11"
| "position Navigator_user_agent = 12"
| "position Navigator_vendor = 13"
| "position Webdriver = 14"
| "position Outerdimensions = 15"
| "position Webgl_vendor = 16"

text \<open>Running \<open>stealth_async\<close> to completion: the call, then the await.\<close>

definition run_stealth_async :: "(string \<Rightarrow> string) \<Rightarrow> page \<Rightarrow> StealthConfig option \<Rightarrow> page" where
  "run_stealth_async SCRIPTS p config =
     await (fst (stealth_async SCRIPTS p config)) (snd (stealth_async SCRIPTS p config))"






text \<open>Concrete inputs: a dictionary of patch texts, a fresh page, a \<open>js\<close> directory, a state.\<close>

definition sample_SCRIPTS :: "string \<Rightarrow> string" where
  "sample_SCRIPTS name = ''// patch '' @ name"

definition empty_page :: page where
  "empty_page = \<lparr>init_scripts = [], routes = []\<rparr>"




definition sample_js :: js_dir where
  "sample_js = map_of (map (\<lambda>e. (snd e, ''// patch '' @ fst e)) SCRIPTS_files)"


section \<open>Properties of the default configuration\<close>

lemma default_opts_constant:
  \<open>''const opts = '' @ dumps (opts_dict default_config) =
   ''const opts = {"webgl_vendor": "Intel Inc.", "webgl_renderer": "Intel Iris OpenGL Engine", "navigator_vendor": "Google Inc.", "navigator_platform": null, "navigator_user_agent": null, "languages": ["en-US", "en"], "runOnInsecureOrigins": null}''\<close>
  by (simp add: opts_dict_def default_config_def json_of_opt_str_def json_of_opt_bool_def
      encode_basestring_ascii_def escape_char_def)

text \<open>
  C1. For the default configuration the sequence is the options constant, then the
  \<open>utils\<close> patch, then the \<open>generate_magic_arrays\<close> patch, then the fourteen optional
  patches, all of them, in the order chrome_app, chrome_csi, chrome_load_times,
  chrome_runtime, iframe_content_window, media_codecs, navigator_languages,
  navigator_permissions, navigator_plugins, navigator_user_agent, navigator_vendor,
  webdriver, outerdimensions, webgl_vendor.
\<close>

theorem enabled_scripts_default:
  \<open>enabled_scripts SCRIPTS default_config =
     [''const opts = {"webgl_vendor": "Intel Inc.", "webgl_renderer": "Intel Iris OpenGL Engine", "navigator_vendor": "Google Inc.", "navigator_platform": null, "navigator_user_agent": null, "languages": ["en-US", "en"], "runOnInsecureOrigins": null}'',
      SCRIPTS ''utils'',
      SCRIPTS ''generate_magic_arrays'',
      SCRIPTS ''chrome_app'',
      SCRIPTS ''chrome_csi'',
      SCRIPTS ''chrome_load_times'',
      SCRIPTS ''chrome_runtime'',
      SCRIPTS ''iframe_content_window'',
      SCRIPTS ''media_codecs'',
      SCRIPTS ''navigator_languages'',
      SCRIPTS ''navigator_permissions'',
      SCRIPTS ''navigator_plugins'',
      SCRIPTS ''navigator_user_agent'',
      SCRIPTS ''navigator_vendor'',
      SCRIPTS ''webdriver'',
      SCRIPTS ''outerdimensions'',
      SCRIPTS ''webgl_vendor'']\<close>
proof -
  have toggles: "chrome_app default_config" "chrome_csi default_config"
    "chrome_load_times default_config" "chrome_runtime default_config"
    "iframe_content_window default_config" "media_codecs default_config"
    "navigator_languages default_config" "navigator_permissions default_config"
    "navigator_plugins default_config" "navigator_user_agent default_config"
    "navigator_vendor default_config" "webdriver default_config"
    "outerdimensions default_config" "webgl_vendor default_config"
    by (simp_all add: default_config_def)
  show ?thesis
    unfolding enabled_scripts_def default_opts_constant
    by (simp only: toggles if_True append.simps)
qed


section \<open>One toggle\<close>

lemma enabled_scripts_segments: "enabled_scripts SCRIPTS c = concat (segments SCRIPTS c)"
  unfolding enabled_scripts_def segments_def by (simp only: concat.simps append_Nil2 append_assoc)

lemma segments_length: "length (segments SCRIPTS c) = 17"
  by (simp add: segments_def)

lemma position_bound: "position t < 17"
  by (cases t) simp_all

lemma segments_at:
  "toggle_on t c \<Longrightarrow> segments SCRIPTS c ! position t = [SCRIPTS (patch_name t)]"
  by (cases t) (simp_all add: segments_def)

lemma segments_disable:
  "segments SCRIPTS (disable t c) = (segments SCRIPTS c)[position t := []]"
  by (cases t) (simp_all add: segments_def opts_dict_def)

lemma concat_split_at:
  "i < length ss \<Longrightarrow> concat ss = concat (take i ss) @ ss ! i @ concat (drop (Suc i) ss)"
  by (subst id_take_nth_drop [of i ss]) simp_all

lemma concat_erase_at:
  "i < length ss \<Longrightarrow> concat (ss[i := []]) = concat (take i ss) @ concat (drop (Suc i) ss)"
  by (simp add: upd_conv_take_nth_drop)

lemma disable_when_off: "\<not> toggle_on t c \<Longrightarrow> disable t c = c"
  by (cases t) simp_all

text \<open>
  C4. Setting one toggle that is on to \<open>False\<close>, the other options as they are, takes
  exactly the fragment of that toggle out of the sequence: the fragments before it and
  the fragments after it stay, in their order. Where the toggle is off already, the
  sequence has no fragment of it and stays as it is.
\<close>

theorem disable_removes_one_fragment:
  "(toggle_on t c \<longrightarrow>
      (\<exists>before after.
           enabled_scripts SCRIPTS c = before @ [SCRIPTS (patch_name t)] @ after
         \<and> enabled_scripts SCRIPTS (disable t c) = before @ after))
   \<and> (\<not> toggle_on t c \<longrightarrow> enabled_scripts SCRIPTS (disable t c) = enabled_scripts SCRIPTS c)"
proof (intro conjI impI)
  assume on: "toggle_on t c"
  let ?ss = "segments SCRIPTS c" and ?i = "position t"
  have i: "?i < length ?ss" by (simp add: segments_length position_bound)
  have "enabled_scripts SCRIPTS c
      = concat (take ?i ?ss) @ [SCRIPTS (patch_name t)] @ concat (drop (Suc ?i) ?ss)"
    using concat_split_at [OF i] segments_at [OF on, of SCRIPTS]
    by (simp add: enabled_scripts_segments)
  moreover have "enabled_scripts SCRIPTS (disable t c)
      = concat (take ?i ?ss) @ concat (drop (Suc ?i) ?ss)"
    using concat_erase_at [OF i] by (simp add: enabled_scripts_segments segments_disable)
  ultimately show "\<exists>before after.
           enabled_scripts SCRIPTS c = before @ [SCRIPTS (patch_name t)] @ after
         \<and> enabled_scripts SCRIPTS (disable t c) = before @ after" by blast
next
  assume "\<not> toggle_on t c"
  then have "disable t c = c" by (rule disable_when_off)
  then show "enabled_scripts SCRIPTS (disable t c) = enabled_scripts SCRIPTS c" by simp
qed

theorem disable_removes_one_fragment_witness:
  "toggle_on Webdriver default_config
   \<and> (\<exists>before after.
         enabled_scripts sample_SCRIPTS default_config
           = before @ [sample_SCRIPTS ''webdriver''] @ after
       \<and> enabled_scripts sample_SCRIPTS (default_config\<lparr>webdriver := False\<rparr>) = before @ after)
   \<and> \<not> toggle_on Webdriver (default_config\<lparr>webdriver := False\<rparr>)
   \<and> enabled_scripts sample_SCRIPTS (disable Webdriver (default_config\<lparr>webdriver := False\<rparr>))
       = enabled_scripts sample_SCRIPTS (default_config\<lparr>webdriver := False\<rparr>)"
proof -
  have on: "toggle_on Webdriver default_config" by (simp add: default_config_def)
  have off: "\<not> toggle_on Webdriver (default_config\<lparr>webdriver := False\<rparr>)" by simp
  from on disable_removes_one_fragment [of Webdriver default_config sample_SCRIPTS]
  have "\<exists>before after.
         enabled_scripts sample_SCRIPTS default_config
           = before @ [sample_SCRIPTS ''webdriver''] @ after
       \<and> enabled_scripts sample_SCRIPTS (default_config\<lparr>webdriver := False\<rparr>) = before @ after"
    by simp
  moreover from off
    disable_removes_one_fragment [of Webdriver "default_config\<lparr>webdriver := False\<rparr>" sample_SCRIPTS]
  have "enabled_scripts sample_SCRIPTS (disable Webdriver (default_config\<lparr>webdriver := False\<rparr>))
       = enabled_scripts sample_SCRIPTS (default_config\<lparr>webdriver := False\<rparr>)"
    by blast
  ultimately show ?thesis using on off by blast
qed


section \<open>The sequence as a function of the options\<close>






text \<open>
  C10. \<open>navigator_hardware_concurrency\<close> has no effect: two configurations that differ in
  it alone give the same sequence, the text stored under that name in \<open>SCRIPTS\<close> is no part
  of any sequence (the sequence is the same whatever that text is), and the options
  constant does not depend on the value.
\<close>

theorem hardware_concurrency_unused:
  "enabled_scripts SCRIPTS (c\<lparr>navigator_hardware_concurrency := n\<rparr>) = enabled_scripts SCRIPTS c
   \<and> enabled_scripts (SCRIPTS(''navigator_hardware_concurrency'' := patch)) c
       = enabled_scripts SCRIPTS c
   \<and> dumps (opts_dict (c\<lparr>navigator_hardware_concurrency := n\<rparr>)) = dumps (opts_dict c)"
  by (simp add: enabled_scripts_def opts_dict_def)


section \<open>Composition\<close>

lemma join_Cons: "xs \<noteq> [] \<Longrightarrow> join sep (x # xs) = x @ sep @ join sep xs"
  by (cases xs) simp_all

lemma join_append_Cons:
  "join sep (ps @ a # qs) = concat (map (\<lambda>p. p @ sep) ps) @ join sep (a # qs)"
  by (induction ps) (simp_all add: join_Cons)

lemma swap_split:
  assumes "i < j" "j < length xs"
  shows "\<exists>ps ms qs. xs = ps @ xs ! i # ms @ xs ! j # qs
           \<and> swap i j xs = ps @ xs ! j # ms @ xs ! i # qs"
proof -
  from assms have i: "i < length xs" by simp
  define ps where "ps = take i xs"
  define rest where "rest = drop (Suc i) xs"
  have xs: "xs = ps @ xs ! i # rest"
    unfolding ps_def rest_def using i by (simp add: id_take_nth_drop)
  have lps: "length ps = i" unfolding ps_def using i by simp
  define k where "k = j - Suc i"
  have k: "k < length rest" "j = Suc i + k" unfolding k_def rest_def using assms by simp_all
  define ms where "ms = take k rest"
  define qs where "qs = drop (Suc k) rest"
  have rest: "rest = ms @ rest ! k # qs"
    unfolding ms_def qs_def using k(1) by (simp add: id_take_nth_drop)
  have lms: "length ms = k" unfolding ms_def using k(1) by simp
  have xj: "xs ! j = rest ! k"
    by (subst xs) (simp add: nth_append lps k(2))
  have full: "xs = ps @ xs ! i # ms @ xs ! j # qs"
    using xs rest xj by simp
  have "swap i j (ps @ xs ! i # ms @ xs ! j # qs) = ps @ xs ! j # ms @ xs ! i # qs"
    by (simp add: swap_def list_update_append nth_append lps lms k(2))
  with full show ?thesis by metis
qed

text \<open>
  Two strings that start with \<open>a\<close>, separator, and with \<open>b\<close>, separator, are equal only
  if \<open>a\<close> is \<open>b\<close> or one of the two, with the separator after it, starts the other.
\<close>

lemma common_start:
  assumes "a @ c # r = b @ c # r'" "a \<noteq> b"
  shows "prefix (a @ [c]) b \<or> prefix (b @ [c]) a"
proof -
  from assms(1) obtain us where
    "(a = b @ us \<and> us @ c # r = c # r') \<or> (a @ us = b \<and> c # r = us @ c # r')"
    by (auto simp: append_eq_append_conv2)
  then show ?thesis
  proof
    assume h: "a = b @ us \<and> us @ c # r = c # r'"
    with assms(2) have "us \<noteq> []" by auto
    with h obtain us' where "us = c # us'" by (cases us) auto
    with h have "a = (b @ [c]) @ us'" by simp
    then show ?thesis by (metis prefixI)
  next
    assume h: "a @ us = b \<and> c # r = us @ c # r'"
    with assms(2) have "us \<noteq> []" by auto
    with h obtain us' where "us = c # us'" by (cases us) auto
    with h have "b = (a @ [c]) @ us'" by auto
    then show ?thesis by (metis prefixI)
  qed
qed

lemma join_swap_same:
  assumes "i < j" "j < length xs" "xs ! i \<noteq> xs ! j"
    and eq: "join [c] (swap i j xs) = join [c] xs"
  shows "prefix (xs ! i @ [c]) (xs ! j) \<or> prefix (xs ! j @ [c]) (xs ! i)"
proof -
  from swap_split [OF assms(1,2)] obtain ps ms qs where
    xs: "xs = ps @ xs ! i # ms @ xs ! j # qs"
    and sw: "swap i j xs = ps @ xs ! j # ms @ xs ! i # qs" by blast
  let ?a = "xs ! i" and ?b = "xs ! j"
  from eq have "join [c] (ps @ ?b # ms @ ?a # qs) = join [c] (ps @ ?a # ms @ ?b # qs)"
    using xs sw by metis
  then have "join [c] (?b # ms @ ?a # qs) = join [c] (?a # ms @ ?b # qs)"
    by (simp add: join_append_Cons)
  then have "?a @ c # join [c] (ms @ ?b # qs) = ?b @ c # join [c] (ms @ ?a # qs)"
    by (simp add: join_Cons)
  from this assms(3) show ?thesis by (rule common_start)
qed

text \<open>Two cases in which neither fragment, with a newline after it, starts the other.\<close>

lemma newline_free_no_prefix:
  "c \<notin> set b \<Longrightarrow> \<not> prefix (a @ [c]) b"
  by (auto simp: prefix_def)

lemma same_length_no_prefix:
  "length a = length b \<Longrightarrow> \<not> prefix (a @ [c]) b"
  by (auto simp: prefix_def)

lemma join_swap_changes_newline_free:
  assumes "i < j" "j < length xs" "xs ! i \<noteq> xs ! j"
    and "CHR ''\<newline>'' \<notin> set (xs ! i)" "CHR ''\<newline>'' \<notin> set (xs ! j)"
  shows "join ''\<newline>'' (swap i j xs) \<noteq> join ''\<newline>'' xs"
  using join_swap_same [OF assms(1-3), of "CHR ''\<newline>''"] assms(4,5)
    newline_free_no_prefix [of "CHR ''\<newline>''"] by blast

lemma join_swap_changes_same_length:
  assumes "i < j" "j < length xs" "xs ! i \<noteq> xs ! j"
    and "length (xs ! i) = length (xs ! j)"
  shows "join ''\<newline>'' (swap i j xs) \<noteq> join ''\<newline>'' xs"
  using join_swap_same [OF assms(1-3), of "CHR ''\<newline>''"] assms(4)
    same_length_no_prefix [of "xs ! i" "xs ! j"] same_length_no_prefix [of "xs ! j" "xs ! i"]
  by auto

text \<open>
  C5, as the code has it. Exchanging two different fragments of a sequence changes the
  composed string unless one of the two fragments, with a newline after it, is the
  start of the other; the other fragments of the sequence may be any strings.
\<close>

theorem join_swap_changes:
  assumes "i < j" "j < length xs" "xs ! i \<noteq> xs ! j"
    and "\<not> prefix (xs ! i @ ''\<newline>'') (xs ! j)" "\<not> prefix (xs ! j @ ''\<newline>'') (xs ! i)"
  shows "join ''\<newline>'' (swap i j xs) \<noteq> join ''\<newline>'' xs"
  using join_swap_same [OF assms(1-3), of "CHR ''\<newline>''"] assms(4,5) by blast

theorem join_swap_changes_witness:
  \<open>[''var c;\<newline>var d;'', ''var a = 1;\<newline>var b = 2;''] ! 0
      \<noteq> [''var c;\<newline>var d;'', ''var a = 1;\<newline>var b = 2;''] ! 1
   \<and> join ''\<newline>'' (swap 0 1 [''var c;\<newline>var d;'', ''var a = 1;\<newline>var b = 2;''])
       \<noteq> join ''\<newline>'' [''var c;\<newline>var d;'', ''var a = 1;\<newline>var b = 2;'']\<close>
proof -
  let ?xs = "[''var c;\<newline>var d;'', ''var a = 1;\<newline>var b = 2;'']"
  have h: "(0::nat) < 1" "1 < length ?xs" "?xs ! 0 \<noteq> ?xs ! 1"
    "\<not> prefix (?xs ! 0 @ ''\<newline>'') (?xs ! 1)" "\<not> prefix (?xs ! 1 @ ''\<newline>'') (?xs ! 0)"
    by simp_all
  from join_swap_changes [OF h] show ?thesis by simp
qed

text \<open>
  The claim as the specification states it fails: the fragments \<open>a\<close> and \<open>a\<newline>a\<close> differ,
  and in either order they compose to \<open>a\<newline>a\<newline>a\<close>.
\<close>

theorem join_swap_counterexample:
  \<open>[''a'', ''a\<newline>a''] ! 0 \<noteq> [''a'', ''a\<newline>a''] ! 1
   \<and> join ''\<newline>'' (swap 0 1 [''a'', ''a\<newline>a'']) = join ''\<newline>'' [''a'', ''a\<newline>a'']\<close>
  by (simp add: swap_def)


section \<open>The apply operations\<close>

lemma collect_scripts_acc:
  "foldl (\<lambda>scripts script. scripts @ [script]) acc gen = acc @ gen"
  by (induction gen arbitrary: acc) simp_all

lemma collect_scripts_id: "collect_scripts gen = gen"
  by (simp add: collect_scripts_def collect_scripts_acc)

lemma add_stealth_headers_page: "snd (add_stealth_headers kind p) = p"
  by (simp add: add_stealth_headers_def call_async_def)

lemma stealth_sync_eq:
  "stealth_sync SCRIPTS p config =
     p\<lparr>init_scripts := init_scripts p
          @ [join ''\<newline>'' (enabled_scripts SCRIPTS (config_or_default config))]\<rparr>"
  by (simp add: stealth_sync_def Let_def collect_scripts_id add_stealth_headers_page
      add_init_script_def)

lemma run_stealth_async_eq:
  "run_stealth_async SCRIPTS p config =
     p\<lparr>init_scripts := init_scripts p
          @ [join ''\<newline>'' (enabled_scripts SCRIPTS (config_or_default config))
             @ ''\<newline>console.log(`end`);'']\<rparr>"
  by (simp add: run_stealth_async_def stealth_async_def call_async_def stealth_async_body_def
      Let_def collect_scripts_id add_stealth_headers_page add_init_script_def)

text \<open>
  Awaited, \<open>add_stealth_headers\<close> registers the route on a page of the synchronous API.
  On a page of the asynchronous API it still registers none, since its body does not
  await \<open>page.route\<close> either.
\<close>

lemma add_stealth_headers_awaited:
  "routes (await (fst (add_stealth_headers Sync_api p)) (snd (add_stealth_headers Sync_api p)))
     = routes p @ [(''**/*'', stealth_handler)]"
  "routes (await (fst (add_stealth_headers Async_api p)) (snd (add_stealth_headers Async_api p)))
     = routes p"
  by (simp_all add: add_stealth_headers_def call_async_def add_stealth_headers_body_def route_def)

text \<open>
  C2. The claim is that both apply operations install the interception rule on the
  page. In the code the coroutine made by \<open>add_stealth_headers(page)\<close> is never awaited,
  so \<open>page.route\<close> is not reached: after either operation the page has the routes it had
  before, and a fresh page has none.
\<close>

theorem stealth_registers_no_route:
  "routes (stealth_sync SCRIPTS p config) = routes p
   \<and> routes (run_stealth_async SCRIPTS p config) = routes p
   \<and> routes (stealth_sync SCRIPTS empty_page None) = []
   \<and> routes (run_stealth_async SCRIPTS empty_page None) = []"
  by (simp add: stealth_sync_eq run_stealth_async_eq empty_page_def)

text \<open>
  C9. Applying stealth twice to a page, with any two configurations, leaves both
  composed scripts registered, the first before the second, after the scripts the page
  had; so for the synchronous and for the asynchronous operation.
\<close>

theorem stealth_twice_appends:
  "init_scripts (stealth_sync SCRIPTS (stealth_sync SCRIPTS p c1) c2) =
     init_scripts p
       @ [join ''\<newline>'' (enabled_scripts SCRIPTS (config_or_default c1)),
          join ''\<newline>'' (enabled_scripts SCRIPTS (config_or_default c2))]
   \<and> init_scripts (run_stealth_async SCRIPTS (run_stealth_async SCRIPTS p c1) c2) =
     init_scripts p
       @ [join ''\<newline>'' (enabled_scripts SCRIPTS (config_or_default c1))
            @ ''\<newline>console.log(`end`);'',
          join ''\<newline>'' (enabled_scripts SCRIPTS (config_or_default c2))
            @ ''\<newline>console.log(`end`);'']"
  by (simp add: stealth_sync_eq run_stealth_async_eq)


section \<open>The marker of the asynchronous variant\<close>

lemma sublist_across_separator:
  assumes "c \<notin> set m"
  shows "sublist m (a @ c # b) \<longleftrightarrow> sublist m a \<or> sublist m b"
proof
  assume "sublist m (a @ c # b)"
  then consider "sublist m a" | "sublist m (c # b)"
    | m1 m2 where "m = m1 @ m2" "suffix m1 a" "prefix m2 (c # b)"
    unfolding sublist_append by blast
  then show "sublist m a \<or> sublist m b"
  proof cases
    case 1
    then show ?thesis by simp
  next
    case 2
    then have "prefix m (c # b) \<or> sublist m b" by (simp only: sublist_Cons_right)
    moreover have "sublist m a" if "prefix m (c # b)"
    proof (cases m)
      case Nil
      then show ?thesis by simp
    next
      case (Cons x m')
      with that assms show ?thesis by simp
    qed
    ultimately show ?thesis by blast
  next
    case 3
    have "m2 = []"
    proof (cases m2)
      case Nil
      then show ?thesis .
    next
      case (Cons x m2')
      with 3 assms show ?thesis by simp
    qed
    with 3 show ?thesis by simp
  qed
next
  assume "sublist m a \<or> sublist m b"
  then show "sublist m (a @ c # b)"
    by (auto simp: sublist_append sublist_Cons_right)
qed

lemma sublist_join:
  assumes "c \<notin> set m" "xs \<noteq> []"
  shows "sublist m (join [c] xs) \<longleftrightarrow> (\<exists>x \<in> set xs. sublist m x)"
  using assms(2)
proof (induction xs)
  case Nil
  then show ?case by simp
next
  case (Cons x xs)
  show ?case
  proof (cases xs)
    case Nil
    then show ?thesis by simp
  next
    case (Cons y ys)
    then have "xs \<noteq> []" by simp
    with Cons.IH have IH: "sublist m (join [c] xs) \<longleftrightarrow> (\<exists>x \<in> set xs. sublist m x)" by simp
    have "join [c] (x # xs) = x @ c # join [c] xs"
      using \<open>xs \<noteq> []\<close> by (simp add: join_Cons)
    then show ?thesis
      by (simp only: sublist_across_separator [OF assms(1)] IH) simp
  qed
qed

lemma enabled_scripts_nonempty: "enabled_scripts SCRIPTS c \<noteq> []"
  by (simp add: enabled_scripts_def)

lemma end_marker_no_newline: "CHR ''\<newline>'' \<notin> set end_marker"
  by (simp add: end_marker_def)

lemma sync_script_marker:
  "sublist end_marker (join ''\<newline>'' (enabled_scripts SCRIPTS c))
     \<longleftrightarrow> (\<exists>f \<in> set (enabled_scripts SCRIPTS c). sublist end_marker f)"
  by (rule sublist_join [OF end_marker_no_newline enabled_scripts_nonempty])

lemma marker_in_opts:
  \<open>''const opts = '' @ dumps (opts_dict (default_config\<lparr>vendor := end_marker\<rparr>)) =
   ''const opts = {"webgl_vendor": "'' @ end_marker @ ''", "webgl_renderer": "Intel Iris OpenGL Engine", "navigator_vendor": "Google Inc.", "navigator_platform": null, "navigator_user_agent": null, "languages": ["en-US", "en"], "runOnInsecureOrigins": null}''\<close>
  by (simp add: opts_dict_def default_config_def json_of_opt_str_def json_of_opt_bool_def
      encode_basestring_ascii_def escape_char_def end_marker_def)

lemma marker_in_languages:
  \<open>''const opts = '' @ dumps (opts_dict (default_config\<lparr>languages := [end_marker]\<rparr>)) =
   ''const opts = {"webgl_vendor": "Intel Inc.", "webgl_renderer": "Intel Iris OpenGL Engine", "navigator_vendor": "Google Inc.", "navigator_platform": null, "navigator_user_agent": null, "languages": ["'' @ end_marker @ ''"], "runOnInsecureOrigins": null}''\<close>
  by (simp add: opts_dict_def default_config_def json_of_opt_str_def json_of_opt_bool_def
      encode_basestring_ascii_def escape_char_def end_marker_def)

text \<open>
  C6, as the code has it. For every configuration the script of the asynchronous
  operation is the script of the synchronous one followed by a newline and the marker
  statement. The synchronous script contains the marker statement exactly when one of
  its fragments, the options constant or an enabled patch text, contains it.
\<close>

theorem async_script_is_sync_plus_marker:
  "\<exists>s. init_scripts (stealth_sync SCRIPTS p config) = init_scripts p @ [s]
     \<and> init_scripts (run_stealth_async SCRIPTS p config)
         = init_scripts p @ [s @ ''\<newline>'' @ end_marker]
     \<and> (sublist end_marker s \<longleftrightarrow>
          (\<exists>f \<in> set (enabled_scripts SCRIPTS (config_or_default config)). sublist end_marker f))"
proof (intro exI conjI)
  show "init_scripts (stealth_sync SCRIPTS p config) =
      init_scripts p @ [join ''\<newline>'' (enabled_scripts SCRIPTS (config_or_default config))]"
    by (simp add: stealth_sync_eq)
  show "init_scripts (run_stealth_async SCRIPTS p config)
      = init_scripts p @ [join ''\<newline>'' (enabled_scripts SCRIPTS (config_or_default config))
           @ ''\<newline>'' @ end_marker]"
    by (simp add: run_stealth_async_eq end_marker_def)
  show "sublist end_marker (join ''\<newline>'' (enabled_scripts SCRIPTS (config_or_default config)))
     \<longleftrightarrow> (\<exists>f \<in> set (enabled_scripts SCRIPTS (config_or_default config)). sublist end_marker f)"
    by (rule sync_script_marker)
qed

theorem async_script_is_sync_plus_marker_witness:
  "\<exists>s. init_scripts (stealth_sync sample_SCRIPTS empty_page
            (Some (default_config\<lparr>languages := [end_marker]\<rparr>))) = [s]
     \<and> init_scripts (run_stealth_async sample_SCRIPTS empty_page
            (Some (default_config\<lparr>languages := [end_marker]\<rparr>))) = [s @ ''\<newline>'' @ end_marker]
     \<and> sublist end_marker s"
proof -
  let ?c = "default_config\<lparr>languages := [end_marker]\<rparr>"
  have "sublist end_marker (''const opts = '' @ dumps (opts_dict ?c))"
    unfolding marker_in_languages by (rule sublist_appendI)
  moreover have "''const opts = '' @ dumps (opts_dict ?c) \<in> set (enabled_scripts sample_SCRIPTS ?c)"
    by (simp add: enabled_scripts_def)
  ultimately have ex: "\<exists>f \<in> set (enabled_scripts sample_SCRIPTS (config_or_default (Some ?c))).
      sublist end_marker f"
    unfolding config_or_default_def by auto
  from async_script_is_sync_plus_marker [of sample_SCRIPTS empty_page "Some ?c"] ex
  show ?thesis by (auto simp: empty_page_def)
qed

text \<open>
  The second half of the claim as the specification states it fails: with the marker
  statement as the \<open>vendor\<close> option, the options constant carries it into the script of
  the synchronous operation.
\<close>

theorem sync_script_marker_counterexample:
  "sublist end_marker
     (last (init_scripts (stealth_sync sample_SCRIPTS empty_page
        (Some (default_config\<lparr>vendor := end_marker\<rparr>)))))"
proof -
  let ?c = "default_config\<lparr>vendor := end_marker\<rparr>"
  have "sublist end_marker (''const opts = '' @ dumps (opts_dict ?c))"
    unfolding marker_in_opts by (rule sublist_appendI)
  moreover have "''const opts = '' @ dumps (opts_dict ?c) \<in> set (enabled_scripts sample_SCRIPTS ?c)"
    by (simp add: enabled_scripts_def)
  ultimately have "sublist end_marker (join ''\<newline>'' (enabled_scripts sample_SCRIPTS ?c))"
    unfolding sync_script_marker by blast
  then show ?thesis by (simp add: stealth_sync_eq config_or_default_def)
qed


section \<open>The header overlay\<close>

lemma stealth_headers_add: "stealth_headers H = H ++ stealth_headers Map.empty"
  by (rule ext) (simp add: stealth_headers_def map_add_def)

lemma stealth_headers_dom:
  "dom (stealth_headers Map.empty) =
     {''sec-ch-ua'', ''sec-ch-ua-mobile'', ''sec-ch-ua-platform'', ''sec-ch-ua-form-factors'',
      ''upgrade-insecure-requests'', ''dnt'', ''user-agent'', ''accept'', ''sec-fetch-site'',
      ''sec-fetch-mode'', ''sec-fetch-user'', ''sec-fetch-dest'', ''referer'',
      ''accept-encoding'', ''accept-language''}"
  by (simp add: stealth_headers_def insert_commute)

lemma stealth_headers_card: "card (dom (stealth_headers Map.empty)) = 15"
  unfolding stealth_headers_dom by simp

lemma map_add_twice: "(m ++ n) ++ n = m ++ (n :: 'a \<rightharpoonup> 'b)"
  by (rule ext) (simp add: map_add_def split: option.splits)

text \<open>
  C3. The overlay is \<open>stealth_headers\<close> of no headers at all; it has the fifteen keys
  listed. For every header mapping \<open>H\<close> of a request, the handler continues the request
  with \<open>H\<close> updated with the overlay: in the forwarded mapping a key of the overlay has
  the overlay's value whatever \<open>H\<close> has for it, every other key has what \<open>H\<close> has, and
  handling the forwarded mapping again forwards it as it is.
\<close>

theorem stealth_headers_overlay:
  "stealth_handler H = Continue (H ++ stealth_headers Map.empty)
   \<and> forwarded (stealth_handler H) = stealth_headers H
   \<and> stealth_headers H = H ++ stealth_headers Map.empty
   \<and> dom (stealth_headers Map.empty) =
     {''sec-ch-ua'', ''sec-ch-ua-mobile'', ''sec-ch-ua-platform'', ''sec-ch-ua-form-factors'',
      ''upgrade-insecure-requests'', ''dnt'', ''user-agent'', ''accept'', ''sec-fetch-site'',
      ''sec-fetch-mode'', ''sec-fetch-user'', ''sec-fetch-dest'', ''referer'',
      ''accept-encoding'', ''accept-language''}
   \<and> card (dom (stealth_headers Map.empty)) = 15
   \<and> (\<forall>k \<in> dom (stealth_headers Map.empty).
         forwarded (stealth_handler H) k = stealth_headers Map.empty k)
   \<and> (\<forall>k. k \<notin> dom (stealth_headers Map.empty) \<longrightarrow> forwarded (stealth_handler H) k = H k)
   \<and> stealth_handler (forwarded (stealth_handler H)) = stealth_handler H
   \<and> stealth_headers (stealth_headers H) = stealth_headers H"
proof -
  let ?O = "stealth_headers Map.empty"
  have add: "\<And>G. stealth_headers G = G ++ ?O" by (rule stealth_headers_add)
  have fwd: "forwarded (stealth_handler H) = stealth_headers H"
    by (simp add: stealth_handler_def)
  have cont: "stealth_handler H = Continue (H ++ ?O)"
    unfolding stealth_handler_def by (subst add) (rule refl)
  have spoofed: "\<forall>k \<in> dom ?O. forwarded (stealth_handler H) k = ?O k"
    unfolding fwd by (subst add) (auto simp: map_add_def split: option.splits)
  have kept: "\<forall>k. k \<notin> dom ?O \<longrightarrow> forwarded (stealth_handler H) k = H k"
    unfolding fwd by (subst add) (auto simp: map_add_def domIff split: option.splits)
  have "stealth_headers (stealth_headers H) = stealth_headers H ++ ?O" by (rule add)
  also have "\<dots> = (H ++ ?O) ++ ?O" using add [of H] by simp
  also have "\<dots> = H ++ ?O" by (rule map_add_twice)
  also have "\<dots> = stealth_headers H" by (rule add [symmetric])
  finally have idem: "stealth_headers (stealth_headers H) = stealth_headers H" .
  then have again: "stealth_handler (forwarded (stealth_handler H)) = stealth_handler H"
    unfolding fwd by (simp add: stealth_handler_def)
  from cont fwd add [of H] stealth_headers_dom stealth_headers_card spoofed kept again idem
  show ?thesis by (intro conjI)
qed

theorem stealth_headers_overlay_witness:
  \<open>''user-agent'' \<in> dom (stealth_headers Map.empty)
   \<and> forwarded (stealth_handler [''user-agent'' \<mapsto> ''curl/8.5.0'', ''x-request-id'' \<mapsto> ''42''])
         ''user-agent''
       = Some ''Mozilla/5.0 (Macintosh; Intel Mac OS X 10_15_7) AppleWebKit/537.36 (KHTML, like Gecko) Chrome/129.0.0.0 Safari/537.36''
   \<and> ''x-request-id'' \<notin> dom (stealth_headers Map.empty)
   \<and> forwarded (stealth_handler [''user-agent'' \<mapsto> ''curl/8.5.0'', ''x-request-id'' \<mapsto> ''42''])
         ''x-request-id''
       = Some ''42''\<close>
proof -
  let ?H = "[''user-agent'' \<mapsto> ''curl/8.5.0'', ''x-request-id'' \<mapsto> ''42'']"
  note inst = stealth_headers_overlay [of ?H]
  have ua: "''user-agent'' \<in> dom (stealth_headers Map.empty)"
    unfolding stealth_headers_dom by simp
  have rid: "''x-request-id'' \<notin> dom (stealth_headers Map.empty)"
    unfolding stealth_headers_dom by simp
  from inst ua
  have "forwarded (stealth_handler ?H) ''user-agent'' = stealth_headers Map.empty ''user-agent''"
    by blast
  also have "\<dots> = Some ''Mozilla/5.0 (Macintosh; Intel Mac OS X 10_15_7) AppleWebKit/537.36 (KHTML, like Gecko) Chrome/129.0.0.0 Safari/537.36''"
    by (simp add: stealth_headers_def)
  finally have 1: "forwarded (stealth_handler ?H) ''user-agent''
     = Some ''Mozilla/5.0 (Macintosh; Intel Mac OS X 10_15_7) AppleWebKit/537.36 (KHTML, like Gecko) Chrome/129.0.0.0 Safari/537.36''" .
  from inst rid have "forwarded (stealth_handler ?H) ''x-request-id'' = ?H ''x-request-id''"
    by blast
  then have 2: "forwarded (stealth_handler ?H) ''x-request-id'' = Some ''42''" by simp
  from ua rid 1 2 show ?thesis by (intro conjI)
qed


section \<open>Loading is all or nothing\<close>

lemma dict_of_files_Inr:
  "dict_of_files js es = Inr d \<longleftrightarrow>
     (\<forall>e \<in> set es. js (snd e) \<noteq> None) \<and> d = map (\<lambda>e. (fst e, the (js (snd e)))) es"
proof (induction es arbitrary: d)
  case Nil
  show ?case by auto
next
  case (Cons e es)
  obtain key name where e: "e = (key, name)" by (cases e)
  show ?case
  proof (cases "js name")
    case None
    then show ?thesis by (simp add: e from_file_def)
  next
    case (Some t)
    show ?thesis
    proof (cases "dict_of_files js es")
      case (Inl err)
      with Cons.IH have "\<not> (\<forall>e \<in> set es. js (snd e) \<noteq> None)" by auto
      with Inl Some show ?thesis by (auto simp: e from_file_def)
    next
      case (Inr d')
      with Cons.IH [of d'] Some show ?thesis by (auto simp: e from_file_def)
    qed
  qed
qed

lemma dict_of_files_Inl:
  "(\<exists>err. dict_of_files js es = Inl err) \<longleftrightarrow> (\<exists>e \<in> set es. js (snd e) = None)"
proof -
  have "(\<exists>err. dict_of_files js es = Inl err) \<longleftrightarrow> \<not> (\<exists>d. dict_of_files js es = Inr d)"
    by (cases "dict_of_files js es") auto
  then show ?thesis by (auto simp: dict_of_files_Inr)
qed

lemma SCRIPTS_keys:
  "map fst SCRIPTS_files =
     [''chrome_csi'', ''chrome_app'', ''chrome_runtime'', ''chrome_load_times'',
      ''generate_magic_arrays'', ''iframe_content_window'', ''media_codecs'',
      ''navigator_vendor'', ''navigator_plugins'', ''navigator_permissions'',
      ''navigator_languages'', ''navigator_user_agent'', ''navigator_hardware_concurrency'',
      ''outerdimensions'', ''utils'', ''webdriver'', ''webgl_vendor'']"
  by (simp add: SCRIPTS_files_def)

lemma SCRIPTS_keys_distinct: "distinct (map fst SCRIPTS_files)"
  unfolding SCRIPTS_keys by simp

lemma map_of_loaded:
  assumes "distinct (map fst es)" "e \<in> set es"
  shows "map_of (map (\<lambda>e. (fst e, the (js (snd e)))) es) (fst e) = Some (the (js (snd e)))"
  using assms by (induction es) (auto simp: rev_image_eqI)

lemma sample_js_complete: "\<forall>e \<in> set SCRIPTS_files. sample_js (snd e) \<noteq> None"
  by (simp add: sample_js_def SCRIPTS_files_def)

lemma sample_js_without_utils:
  "\<exists>e \<in> set SCRIPTS_files. (sample_js(''utils.js'' := None)) (snd e) = None"
  by (simp add: SCRIPTS_files_def)

text \<open>
  C8. When a file that the dictionary literal names cannot be read, loading ends in an
  error and gives no dictionary; when every one of them can be read, loading gives a
  dictionary; and a dictionary that loading gives has exactly the seventeen patch
  names as its keys, each with the text of its file.
\<close>

theorem load_SCRIPTS_all_or_nothing:
  "((\<exists>e \<in> set SCRIPTS_files. js (snd e) = None) \<longrightarrow> (\<exists>err. load_SCRIPTS js = Inl err))
   \<and> ((\<forall>e \<in> set SCRIPTS_files. js (snd e) \<noteq> None) \<longrightarrow> (\<exists>d. load_SCRIPTS js = Inr d))
   \<and> (\<forall>d. load_SCRIPTS js = Inr d \<longrightarrow>
         map fst d =
           [''chrome_csi'', ''chrome_app'', ''chrome_runtime'', ''chrome_load_times'',
            ''generate_magic_arrays'', ''iframe_content_window'', ''media_codecs'',
            ''navigator_vendor'', ''navigator_plugins'', ''navigator_permissions'',
            ''navigator_languages'', ''navigator_user_agent'',
            ''navigator_hardware_concurrency'', ''outerdimensions'', ''utils'', ''webdriver'',
            ''webgl_vendor'']
         \<and> (\<forall>e \<in> set SCRIPTS_files. map_of d (fst e) = js (snd e)))"
proof (intro conjI impI allI)
  assume "\<exists>e \<in> set SCRIPTS_files. js (snd e) = None"
  then show "\<exists>err. load_SCRIPTS js = Inl err"
    unfolding load_SCRIPTS_def by (simp only: dict_of_files_Inl)
next
  assume "\<forall>e \<in> set SCRIPTS_files. js (snd e) \<noteq> None"
  then show "\<exists>d. load_SCRIPTS js = Inr d"
    unfolding load_SCRIPTS_def by (simp only: dict_of_files_Inr) simp
next
  fix d assume "load_SCRIPTS js = Inr d"
  then have ok: "\<forall>e \<in> set SCRIPTS_files. js (snd e) \<noteq> None"
    and d: "d = map (\<lambda>e. (fst e, the (js (snd e)))) SCRIPTS_files"
    unfolding load_SCRIPTS_def dict_of_files_Inr by simp_all
  have "map fst d = map fst SCRIPTS_files" unfolding d by (simp add: comp_def)
  then show "map fst d =
           [''chrome_csi'', ''chrome_app'', ''chrome_runtime'', ''chrome_load_times'',
            ''generate_magic_arrays'', ''iframe_content_window'', ''media_codecs'',
            ''navigator_vendor'', ''navigator_plugins'', ''navigator_permissions'',
            ''navigator_languages'', ''navigator_user_agent'',
            ''navigator_hardware_concurrency'', ''outerdimensions'', ''utils'', ''webdriver'',
            ''webgl_vendor'']"
    by (simp only: SCRIPTS_keys)
  show "\<forall>e \<in> set SCRIPTS_files. map_of d (fst e) = js (snd e)"
  proof
    fix e assume e: "e \<in> set SCRIPTS_files"
    with ok obtain t where "js (snd e) = Some t" by auto
    with map_of_loaded [OF SCRIPTS_keys_distinct e, of js] show "map_of d (fst e) = js (snd e)"
      unfolding d by simp
  qed
qed

theorem load_SCRIPTS_all_or_nothing_witness:
  "(sample_js(''utils.js'' := None)) ''utils.js'' = None
   \<and> (\<exists>err. load_SCRIPTS (sample_js(''utils.js'' := None)) = Inl err)
   \<and> (\<exists>d. load_SCRIPTS sample_js = Inr d
         \<and> length d = 17
         \<and> map_of d ''utils'' = Some ''// patch utils'')"
proof -
  note bad = load_SCRIPTS_all_or_nothing [of "sample_js(''utils.js'' := None)"]
  note good = load_SCRIPTS_all_or_nothing [of sample_js]
  from bad sample_js_without_utils
  have fails: "\<exists>err. load_SCRIPTS (sample_js(''utils.js'' := None)) = Inl err" by blast
  from good sample_js_complete obtain d where d: "load_SCRIPTS sample_js = Inr d" by blast
  with good have keys: "map fst d =
           [''chrome_csi'', ''chrome_app'', ''chrome_runtime'', ''chrome_load_times'',
            ''generate_magic_arrays'', ''iframe_content_window'', ''media_codecs'',
            ''navigator_vendor'', ''navigator_plugins'', ''navigator_permissions'',
            ''navigator_languages'', ''navigator_user_agent'',
            ''navigator_hardware_concurrency'', ''outerdimensions'', ''utils'', ''webdriver'',
            ''webgl_vendor'']"
    and vals: "\<forall>e \<in> set SCRIPTS_files. map_of d (fst e) = sample_js (snd e)" by blast+
  from keys have "length (map fst d) = 17" by simp
  then have len: "length d = 17" by simp
  have "(''utils'', ''utils.js'') \<in> set SCRIPTS_files" by (simp add: SCRIPTS_files_def)
  with vals have "map_of d ''utils'' = sample_js ''utils.js''" by fastforce
  also have "\<dots> = Some ''// patch utils''" by (simp add: sample_js_def SCRIPTS_files_def)
  finally have "map_of d ''utils'' = Some ''// patch utils''" .
  with d len fails show ?thesis by simp
qed

end
